theory Spec2Isabelle
  imports Main
begin

section \<open>The NER preprocessor (src/ner/data/preprocess.py)\<close>

text \<open>
  A Python \<open>str\<close> is a list of Unicode code points. The whitespace characters are the ones
  \<open>str.rstrip()\<close> and \<open>str.split()\<close> without arguments strip and split at.
\<close>

type_synonym pystr = "nat list"

definition isspace :: "nat \<Rightarrow> bool" where
  "isspace c \<longleftrightarrow>
     (9 \<le> c \<and> c \<le> 13) \<or> (28 \<le> c \<and> c \<le> 32) \<or> c = 133 \<or> c = 160 \<or> c = 5760 \<or>
     (8192 \<le> c \<and> c \<le> 8202) \<or> c = 8232 \<or> c = 8233 \<or> c = 8239 \<or> c = 8287 \<or> c = 12288"

text \<open>\<open>line.rstrip()\<close>: drop the trailing run of whitespace.\<close>

definition rstrip :: "pystr \<Rightarrow> pystr" where
  "rstrip s = rev (dropWhile isspace (rev s))"

text \<open>
  \<open>line.split()\<close>: scan left to right, \<open>cur\<close> being the field read so far; a whitespace
  character closes a non-empty field, and empty fields are never produced.
\<close>

fun split_scan :: "pystr \<Rightarrow> pystr \<Rightarrow> pystr list" where
  "split_scan cur [] = (if cur = [] then [] else [cur])"
| "split_scan cur (c # cs) =
     (if isspace c then (if cur = [] then split_scan [] cs else cur # split_scan [] cs)
      else split_scan (cur @ [c]) cs)"

definition split :: "pystr \<Rightarrow> pystr list" where
  "split s = split_scan [] s"

datatype py_error =
  IndexError | KeyError | ValueError | TypeError | AttributeError | ImportError |
  ZeroDivisionError | NotADirectoryError | FileNotFoundError | RuntimeError

text \<open>
  The mutable state of the script: the counter, and the lines written to standard output
  so far (one entry for each call of \<open>print\<close>, without its newline).
\<close>

record state =
  subword_len_counter :: int
  stdout :: "pystr list"

text \<open>\<open>print(token, label)\<close> writes the two strings with one space between them.\<close>

definition print2 :: "pystr \<Rightarrow> pystr \<Rightarrow> pystr" where
  "print2 token label = token @ [32] @ label"

text \<open>
  The body of the \<open>for\<close> loop, for one line of the file. The tokenizer is the external
  library's, a parameter; \<open>line[0]\<close> and \<open>line[-1]\<close> raise \<open>IndexError\<close> on an empty list.
\<close>

definition body :: "(pystr \<Rightarrow> 'sub list) \<Rightarrow> int \<Rightarrow> pystr \<Rightarrow> state \<Rightarrow> py_error + state" where
  "body tokenize max_len line0 s =
     (let line = rstrip line0 in
      if line = [] then
        Inr (s\<lparr>stdout := stdout s @ [line], subword_len_counter := 0\<rparr>)
      else
        (case split line of
           [] \<Rightarrow> Inl IndexError
         | token # others \<Rightarrow>
             (let label = last (token # others);
                  current_subwords_len = int (length (tokenize token)) in
              if current_subwords_len = 0 then Inr s
              else if subword_len_counter s + current_subwords_len > max_len then
                Inr (s\<lparr>stdout := stdout s @ [[], print2 token label],
                       subword_len_counter := 0\<rparr>)
              else
                Inr (s\<lparr>subword_len_counter := subword_len_counter s + current_subwords_len,
                       stdout := stdout s @ [print2 token label]\<rparr>))))"

text \<open>The loop \<open>for line in f_p\<close> over the lines of the file, in order.\<close>

fun main_loop :: "(pystr \<Rightarrow> 'sub list) \<Rightarrow> int \<Rightarrow> pystr list \<Rightarrow> state \<Rightarrow> py_error + state" where
  "main_loop tokenize max_len [] s = Inr s"
| "main_loop tokenize max_len (line # rest) s =
     (case body tokenize max_len line s of
        Inl e \<Rightarrow> Inl e
      | Inr s' \<Rightarrow> main_loop tokenize max_len rest s')"

definition init_state :: state where
  "init_state = \<lparr>subword_len_counter = 0, stdout = []\<rparr>"

definition preprocess :: "(pystr \<Rightarrow> 'sub list) \<Rightarrow> int \<Rightarrow> pystr list \<Rightarrow> py_error + state" where
  "preprocess tokenize max_len lines = main_loop tokenize max_len lines init_state"

text \<open>The fields of a line, and the token and label the loop body reads from them.\<close>

definition line_fields :: "pystr \<Rightarrow> pystr list" where
  "line_fields line0 = split (rstrip line0)"

definition blank :: "pystr \<Rightarrow> bool" where
  "blank line0 \<longleftrightarrow> rstrip line0 = []"

definition token_of :: "pystr \<Rightarrow> pystr" where
  "token_of line0 = (case line_fields line0 of [] \<Rightarrow> [] | t # others \<Rightarrow> t)"

definition label_of :: "pystr \<Rightarrow> pystr" where
  "label_of line0 = (case line_fields line0 of [] \<Rightarrow> [] | t # others \<Rightarrow> last (t # others))"

text \<open>
  What one line does to the counter and what it prints, when the counter is \<open>c\<close> before
  it: the loop body run on a state with that counter and nothing printed yet.
\<close>

definition line_effect :: "(pystr \<Rightarrow> 'sub list) \<Rightarrow> int \<Rightarrow> int \<Rightarrow> pystr \<Rightarrow> int \<times> pystr list" where
  "line_effect tokenize max_len c line0 =
     (case body tokenize max_len line0 \<lparr>subword_len_counter = c, stdout = []\<rparr> of
        Inl e \<Rightarrow> (c, [])
      | Inr t \<Rightarrow> (subword_len_counter t, stdout t))"

definition fold_step :: "(pystr \<Rightarrow> 'sub list) \<Rightarrow> int \<Rightarrow> pystr \<Rightarrow> state \<Rightarrow> state" where
  "fold_step tokenize max_len line0 s =
     (case line_effect tokenize max_len (subword_len_counter s) line0 of
        (c', printed) \<Rightarrow> \<lparr>subword_len_counter = c', stdout = stdout s @ printed\<rparr>)"

text \<open>
  A stand-in for the library's tokenizer in concrete runs: one subword for each printable
  ASCII character of the token. Control characters give no subword, which is the case
  the script's comment on \<open>\x96\<close> and \<open>\x95\<close> is about.
\<close>

definition char_tokenize :: "pystr \<Rightarrow> nat list" where
  "char_tokenize t = filter (\<lambda>c. 32 < c \<and> c < 127) t"

text \<open>A string literal as code points.\<close>

definition str :: "string \<Rightarrow> pystr" where
  "str cs = map of_char cs"

section \<open>The question-answering driver (src/squad/run_squad.py)\<close>

subsection \<open>The driver and its environment\<close>

text \<open>
  The driver computes nothing itself about models or data: it calls the library, the
  operating system and the Python runtime, and branches on what they answer. A library
  object (a model, a tokenizer, a tensor, a dataset, a float) is a value of a type
  \<open>'obj\<close> that the driver can only pass on. A call is the called function's name with
  its arguments.
\<close>

datatype 'obj arg =
    Obj 'obj
  | Objs "'obj list"
  | Dict "(string \<times> 'obj) list"
  | Str string
  | Num int
  | Flag bool
  | NoneArg
  | Parsed string

datatype 'obj call = Call string "'obj arg list"

text \<open>What a call answers: an exception, or a value of one of the kinds the driver uses.\<close>

datatype 'obj answer =
    is_Raised: Raised (un_Raised: py_error)
  | NoneVal
  | BoolVal bool
  | IntVal int
  | ObjVal 'obj
  | ObjsVal "'obj list"
  | StrsVal "string list"

text \<open>
  A run of driver code: it returns, raises, or makes a call and goes on with the answer.
\<close>

datatype ('obj, 'a) prog =
    Done 'a
  | Fail py_error
  | Do "'obj call" "'obj answer \<Rightarrow> ('obj, 'a) prog"

primrec bind :: "('obj, 'a) prog \<Rightarrow> ('a \<Rightarrow> ('obj, 'b) prog) \<Rightarrow> ('obj, 'b) prog" where
  "bind (Done v) f = f v"
| "bind (Fail e) f = Fail e"
| "bind (Do c k) f = Do c (\<lambda>r. bind (k r) f)"

text \<open>\<open>try: p except e: h\<close>.\<close>

primrec catch :: "('obj, 'a) prog \<Rightarrow> py_error \<Rightarrow> ('obj, 'a) prog \<Rightarrow> ('obj, 'a) prog" where
  "catch (Done v) e h = Done v"
| "catch (Fail e') e h = (if e' = e then h else Fail e')"
| "catch (Do c k) e h = Do c (\<lambda>r. catch (k r) e h)"

text \<open>
  A call whose exception is not caught propagates. The typed forms say which kind of
  answer the driver goes on with; an answer of another kind cannot come from the real
  callee, and the run stops with \<open>TypeError\<close>.
\<close>

definition ask :: "'obj call \<Rightarrow> ('obj answer \<Rightarrow> ('obj, 'a) prog) \<Rightarrow> ('obj, 'a) prog" where
  "ask c k = Do c (\<lambda>r. if is_Raised r then Fail (un_Raised r) else k r)"

definition exec :: "'obj call \<Rightarrow> ('obj, 'a) prog \<Rightarrow> ('obj, 'a) prog" where
  "exec c p = Do c (\<lambda>r. if is_Raised r then Fail (un_Raised r) else p)"

definition ask_bool :: "'obj call \<Rightarrow> (bool \<Rightarrow> ('obj, 'a) prog) \<Rightarrow> ('obj, 'a) prog" where
  "ask_bool c k =
     Do c (\<lambda>r. case r of Raised e \<Rightarrow> Fail e | BoolVal b \<Rightarrow> k b | _ \<Rightarrow> Fail TypeError)"

definition ask_int :: "'obj call \<Rightarrow> (int \<Rightarrow> ('obj, 'a) prog) \<Rightarrow> ('obj, 'a) prog" where
  "ask_int c k =
     Do c (\<lambda>r. case r of Raised e \<Rightarrow> Fail e | IntVal n \<Rightarrow> k n | _ \<Rightarrow> Fail TypeError)"

definition ask_obj :: "'obj call \<Rightarrow> ('obj \<Rightarrow> ('obj, 'a) prog) \<Rightarrow> ('obj, 'a) prog" where
  "ask_obj c k =
     Do c (\<lambda>r. case r of Raised e \<Rightarrow> Fail e | ObjVal x \<Rightarrow> k x | _ \<Rightarrow> Fail TypeError)"

definition ask_objs :: "'obj call \<Rightarrow> ('obj list \<Rightarrow> ('obj, 'a) prog) \<Rightarrow> ('obj, 'a) prog" where
  "ask_objs c k =
     Do c (\<lambda>r. case r of Raised e \<Rightarrow> Fail e | ObjsVal xs \<Rightarrow> k xs | _ \<Rightarrow> Fail TypeError)"

definition ask_strs :: "'obj call \<Rightarrow> (string list \<Rightarrow> ('obj, 'a) prog) \<Rightarrow> ('obj, 'a) prog" where
  "ask_strs c k =
     Do c (\<lambda>r. case r of Raised e \<Rightarrow> Fail e | StrsVal xs \<Rightarrow> k xs | _ \<Rightarrow> Fail TypeError)"

text \<open>
  Running against an environment: a responder with a state of its own answers each call,
  or has no answer left. The result is the transcript, every call with its answer in
  order, and how the run ended.
\<close>

datatype 'a outcome = Returned 'a | Raising py_error | Waiting

primrec run ::
  "('e \<Rightarrow> 'obj call \<Rightarrow> ('obj answer \<times> 'e) option) \<Rightarrow> ('obj, 'a) prog \<Rightarrow> 'e \<Rightarrow>
     ('obj call \<times> 'obj answer) list \<times> 'a outcome \<times> 'e" where
  "run env (Done v) = (\<lambda>e. ([], Returned v, e))"
| "run env (Fail x) = (\<lambda>e. ([], Raising x, e))"
| "run env (Do c k) =
     (\<lambda>e. case env e c of
        None \<Rightarrow> ([], Waiting, e)
      | Some (r, e') \<Rightarrow> (case run env (k r) e' of (t, rest) \<Rightarrow> ((c, r) # t, rest)))"

text \<open>An environment that reads its answers off a list, and one that answers by a function.\<close>

definition script :: "'obj answer list \<Rightarrow> 'obj call \<Rightarrow> ('obj answer \<times> 'obj answer list) option" where
  "script rs c = (case rs of [] \<Rightarrow> None | r # rs' \<Rightarrow> Some (r, rs'))"

definition replay ::
  "('obj, 'a) prog \<Rightarrow> 'obj answer list \<Rightarrow> ('obj call \<times> 'obj answer) list \<times> 'a outcome" where
  "replay p rs = (case run script p rs of (t, out, rest) \<Rightarrow> (t, out))"

definition answering :: "('obj call \<Rightarrow> 'obj answer) \<Rightarrow> unit \<Rightarrow> 'obj call \<Rightarrow> ('obj answer \<times> unit) option" where
  "answering f u c = Some (f c, ())"

text \<open>
  The shape of a call or an answer: all of it but the library objects in it. Strings,
  integers, booleans, the exception and the number of objects in a list are shape.
\<close>

definition call_shape :: "'obj call \<Rightarrow> unit call" where
  "call_shape c = map_call (\<lambda>x. ()) c"

definition answer_shape :: "'obj answer \<Rightarrow> unit answer" where
  "answer_shape r = map_answer (\<lambda>x. ()) r"

definition outcome_shape :: "'a outcome \<Rightarrow> unit outcome" where
  "outcome_shape out = map_outcome (\<lambda>x. ()) out"

subsection \<open>Paths and names\<close>

text \<open>\<open>s.split(sep)\<close> with a one-character separator: empty pieces are kept.\<close>

fun split_on :: "char \<Rightarrow> string \<Rightarrow> string list" where
  "split_on sep [] = [[]]"
| "split_on sep (c # cs) =
     (if c = sep then [] # split_on sep cs
      else (case split_on sep cs of
              [] \<Rightarrow> [[c]]
            | w # ws \<Rightarrow> (c # w) # ws))"

text \<open>\<open>str(n)\<close> and \<open>"{}".format(n)\<close> for an integer.\<close>

fun digits :: "nat \<Rightarrow> string" where
  "digits n =
     (if n < 10 then [''0123456789'' ! n]
      else digits (n div 10) @ [''0123456789'' ! (n mod 10)])"

definition str_int :: "int \<Rightarrow> string" where
  "str_int i = (if i < 0 then CHR ''-'' # digits (nat (- i)) else digits (nat i))"

text \<open>\<open>os.path.join(a, b)\<close> on a POSIX system.\<close>

definition path_join :: "string \<Rightarrow> string \<Rightarrow> string" where
  "path_join a b =
     (if b \<noteq> [] \<and> hd b = CHR ''/'' then b
      else if a = [] \<or> last a = CHR ''/'' then a @ b
      else a @ ''/'' @ b)"

text \<open>The truth value of an optional string argument: \<open>None\<close> and \<open>""\<close> are false.\<close>

definition truthy :: "string option \<Rightarrow> bool" where
  "truthy v = (case v of None \<Rightarrow> False | Some s \<Rightarrow> s \<noteq> [])"


subsection \<open>The parsed arguments\<close>

text \<open>
  The fields of \<open>args\<close> that the driver branches on, computes with or builds paths from.
  An argument that the driver only hands to the library (the learning rate, the seed, the
  null-score threshold and so on) appears in a call as \<open>Parsed\<close> with its name.
  \<open>n_gpu\<close> is not parsed: \<open>main\<close> sets it.
\<close>

record args =
  doc_stride :: int
  max_seq_length :: int
  max_query_length :: int
  output_dir :: string
  do_train :: bool
  do_eval :: bool
  overwrite_output_dir :: bool
  server_ip :: string
  server_port :: string
  local_rank :: int
  no_cuda :: bool
  fp16 :: bool
  model_type :: string
  model_name_or_path :: string
  config_name :: string
  tokenizer_name :: string
  cache_dir :: string
  uncertainty_model :: bool
  eval_all_checkpoints :: bool
  data_dir :: "string option"
  train_file :: "string option"
  predict_file :: "string option"
  overwrite_cache :: bool
  version_2_with_negative :: bool
  threads :: int
  per_gpu_train_batch_size :: int
  per_gpu_eval_batch_size :: int
  n_gpu :: int
  max_steps :: int
  num_train_epochs :: int
  gradient_accumulation_steps :: int
  logging_steps :: int
  save_steps :: int
  evaluate_during_training :: bool
  n_best_size :: int
  max_answer_length :: int
  do_lower_case :: bool
  verbose_logging :: bool
  lang_id :: int

definition opt_str :: "string option \<Rightarrow> 'obj arg" where
  "opt_str v = (case v of None \<Rightarrow> NoneArg | Some s \<Rightarrow> Str s)"

subsection \<open>Python on lists and tuples\<close>

text \<open>\<open>xs[i]\<close> on a tuple the driver built, \<open>a, b = xs\<close>, and a \<open>for\<close> loop over a list.\<close>

definition index :: "'x list \<Rightarrow> nat \<Rightarrow> ('x \<Rightarrow> ('obj, 'a) prog) \<Rightarrow> ('obj, 'a) prog" where
  "index xs i k = (if i < length xs then k (xs ! i) else Fail IndexError)"

definition unpack2 :: "'x list \<Rightarrow> ('x \<Rightarrow> 'x \<Rightarrow> ('obj, 'a) prog) \<Rightarrow> ('obj, 'a) prog" where
  "unpack2 xs k = (case xs of [x, y] \<Rightarrow> k x y | _ \<Rightarrow> Fail ValueError)"

primrec foreach :: "'x list \<Rightarrow> ('x \<Rightarrow> 's \<Rightarrow> ('obj, 's) prog) \<Rightarrow> 's \<Rightarrow> ('obj, 's) prog" where
  "foreach [] step s = Done s"
| "foreach (x # xs) step s = bind (step x s) (\<lambda>s'. foreach xs step s')"

subsection \<open>\<open>load_and_cache_examples\<close>\<close>

text \<open>
  In the models of the driver's functions the calls of the logger, of the progress bars
  (\<open>tqdm\<close>, \<open>trange\<close>), of the timer and of \<open>torch.no_grad\<close> are left out: the driver
  does not branch on them. A \<open>for\<close> loop over a library object asks for its items with
  one call, \<open>iter\<close>.
\<close>

definition barrier :: "unit \<Rightarrow> ('obj, unit) prog" where
  "barrier u = exec (Call ''torch.distributed.barrier'' []) (Done ())"

definition cached_features_file :: "args \<Rightarrow> bool \<Rightarrow> py_error + string" where
  "cached_features_file a evaluate =
     (let input_dir = (case data_dir a of Some d \<Rightarrow> if d \<noteq> [] then d else ''.'' | None \<Rightarrow> ''.'') in
      case filter (\<lambda>p. p \<noteq> []) (split_on CHR ''/'' (model_name_or_path a)) of
        [] \<Rightarrow> Inl IndexError
      | p # ps \<Rightarrow>
          Inr (path_join input_dir
                 (''cached_'' @ (if evaluate then ''dev'' else ''train'') @ ''_'' @ last (p # ps) @
                  ''_'' @ str_int (max_seq_length a))))"

datatype 'obj loaded = Dataset 'obj | DatasetExamplesFeatures 'obj 'obj 'obj

definition read_examples :: "args \<Rightarrow> bool \<Rightarrow> ('obj, 'obj) prog" where
  "read_examples a evaluate =
     (if \<not> truthy (data_dir a) \<and>
         ((evaluate \<and> \<not> truthy (predict_file a)) \<or> (\<not> evaluate \<and> \<not> truthy (train_file a)))
      then
        exec (Call ''import'' [Str ''tensorflow_datasets''])
          (ask_obj (Call ''tfds.load'' [Str ''squad''])
             (\<lambda>tfds_examples.
                ask_obj (Call ''SquadV1Processor'' [])
                  (\<lambda>processor.
                     ask_obj (Call ''get_examples_from_dataset''
                                [Obj processor, Obj tfds_examples, Flag evaluate]) Done)))
      else
        ask_obj (Call (if version_2_with_negative a then ''SquadV2Processor''
                       else ''SquadV1Processor'') [])
          (\<lambda>processor.
             if evaluate then
               ask_obj (Call ''get_dev_examples''
                          [Obj processor, opt_str (data_dir a), opt_str (predict_file a)]) Done
             else
               ask_obj (Call ''get_train_examples''
                          [Obj processor, opt_str (data_dir a), opt_str (train_file a)]) Done))"

definition create_features ::
  "args \<Rightarrow> 'obj \<Rightarrow> bool \<Rightarrow> string \<Rightarrow> ('obj, 'obj \<times> 'obj \<times> 'obj) prog" where
  "create_features a tokenizer evaluate cf =
     bind (read_examples a evaluate)
       (\<lambda>examples.
          ask_objs (Call ''squad_convert_examples_to_features''
                      [Obj examples, Obj tokenizer, Num (max_seq_length a), Num (doc_stride a),
                       Num (max_query_length a), Flag (\<not> evaluate), Str ''pt'', Num (threads a)])
            (\<lambda>r. unpack2 r
               (\<lambda>features dataset.
                  if local_rank a \<in> {- 1, 0} then
                    exec (Call ''torch.save''
                            [Dict [(''features'', features), (''dataset'', dataset),
                                   (''examples'', examples)], Str cf])
                      (Done (features, dataset, examples))
                  else Done (features, dataset, examples))))"

definition load_or_create ::
  "args \<Rightarrow> 'obj \<Rightarrow> bool \<Rightarrow> string \<Rightarrow> ('obj, 'obj \<times> 'obj \<times> 'obj) prog" where
  "load_or_create a tokenizer evaluate cf =
     ask_bool (Call ''os.path.exists'' [Str cf])
       (\<lambda>cached.
          if cached \<and> \<not> overwrite_cache a then
            ask_obj (Call ''torch.load'' [Str cf])
              (\<lambda>features_and_dataset.
                 ask_obj (Call ''__getitem__'' [Obj features_and_dataset, Str ''features''])
                   (\<lambda>features.
                      ask_obj (Call ''__getitem__'' [Obj features_and_dataset, Str ''dataset''])
                        (\<lambda>dataset.
                           ask_obj (Call ''__getitem__''
                                      [Obj features_and_dataset, Str ''examples''])
                             (\<lambda>examples. Done (features, dataset, examples)))))
          else create_features a tokenizer evaluate cf)"

definition load_and_cache_examples ::
  "args \<Rightarrow> 'obj \<Rightarrow> bool \<Rightarrow> bool \<Rightarrow> ('obj, 'obj loaded) prog" where
  "load_and_cache_examples a tokenizer evaluate output_examples =
     bind (if local_rank a \<notin> {- 1, 0} \<and> \<not> evaluate then barrier () else Done ())
       (\<lambda>u. case cached_features_file a evaluate of
          Inl e \<Rightarrow> Fail e
        | Inr cf \<Rightarrow>
            bind (load_or_create a tokenizer evaluate cf)
              (\<lambda>(features, dataset, examples).
                 bind (if local_rank a = 0 \<and> \<not> evaluate then barrier () else Done ())
                   (\<lambda>u. Done (if output_examples
                               then DatasetExamplesFeatures dataset examples features
                               else Dataset dataset))))"

subsection \<open>\<open>evaluate\<close>\<close>

text \<open>\<open>to_list(tensor)\<close>, that is \<open>tensor.detach().cpu().tolist()\<close>.\<close>

definition to_list :: "'obj \<Rightarrow> ('obj \<Rightarrow> ('obj, 'a) prog) \<Rightarrow> ('obj, 'a) prog" where
  "to_list tensor k =
     ask_obj (Call ''detach'' [Obj tensor])
       (\<lambda>d. ask_obj (Call ''cpu'' [Obj d]) (\<lambda>c. ask_obj (Call ''tolist'' [Obj c]) k))"

text \<open>\<open>tuple(t.to(args.device) for t in batch)\<close>.\<close>

definition to_device :: "'obj \<Rightarrow> ('obj, 'obj list) prog" where
  "to_device batch =
     ask_objs (Call ''iter'' [Obj batch])
       (\<lambda>ts. foreach ts
                (\<lambda>t moved. ask_obj (Call ''to'' [Obj t, Parsed ''device''])
                              (\<lambda>t'. Done (moved @ [t'])))
                [])"

text \<open>
  \<open>(torch.ones(batch[0].shape, dtype=torch.int64) * args.lang_id).to(args.device)\<close>, added
  to the inputs when the model has a \<open>config\<close> with a \<open>lang2id\<close>.
\<close>

definition with_langs ::
  "args \<Rightarrow> 'obj \<Rightarrow> 'obj \<Rightarrow> (string \<times> 'obj) list \<Rightarrow> ('obj, (string \<times> 'obj) list) prog" where
  "with_langs a model b0 inputs =
     ask_bool (Call ''hasattr'' [Obj model, Str ''config''])
       (\<lambda>has_config.
          if has_config then
            ask_obj (Call ''getattr'' [Obj model, Str ''config''])
              (\<lambda>config.
                 ask_bool (Call ''hasattr'' [Obj config, Str ''lang2id''])
                   (\<lambda>has_lang2id.
                      if has_lang2id then
                        ask_obj (Call ''getattr'' [Obj b0, Str ''shape''])
                          (\<lambda>shape.
                             ask_obj (Call ''torch.ones'' [Obj shape, Str ''torch.int64''])
                               (\<lambda>ones.
                                  ask_obj (Call ''__mul__'' [Obj ones, Num (lang_id a)])
                                    (\<lambda>scaled.
                                       ask_obj (Call ''to'' [Obj scaled, Parsed ''device''])
                                         (\<lambda>langs. Done (inputs @ [(''langs'', langs)])))))
                      else Done inputs))
          else Done inputs)"

text \<open>The inputs of the model for one evaluation batch (lines 333 to 351).\<close>

definition eval_inputs ::
  "args \<Rightarrow> 'obj \<Rightarrow> 'obj list \<Rightarrow> ('obj, (string \<times> 'obj) list \<times> 'obj) prog" where
  "eval_inputs a model batch =
     index batch 0 (\<lambda>b0. index batch 1 (\<lambda>b1. index batch 2 (\<lambda>b2.
       (let inputs0 = [(''input_ids'', b0), (''attention_mask'', b1), (''token_type_ids'', b2)];
            inputs1 = (if model_type a \<in> {''xlm'', ''roberta'', ''distilbert'', ''camembert''}
                       then filter (\<lambda>kv. fst kv \<noteq> ''token_type_ids'') inputs0 else inputs0) in
        index batch 3 (\<lambda>feature_indices.
          if model_type a \<in> {''xlnet'', ''xlm''} then
            index batch 4 (\<lambda>b4. index batch 5 (\<lambda>b5.
              bind (with_langs a model b0 (inputs1 @ [(''cls_index'', b4), (''p_mask'', b5)]))
                (\<lambda>inputs. Done (inputs, feature_indices))))
          else Done (inputs1, feature_indices))))))"

text \<open>The result for one feature of the batch (lines 355 to 384).\<close>

definition squad_result :: "'obj \<Rightarrow> 'obj \<Rightarrow> nat \<times> 'obj \<Rightarrow> 'obj list \<Rightarrow> ('obj, 'obj list) prog" where
  "squad_result features outputs ix all_results =
     (case ix of (i, feature_index) \<Rightarrow>
        ask_int (Call ''item'' [Obj feature_index])
          (\<lambda>fi. ask_obj (Call ''__getitem__'' [Obj features, Num fi])
            (\<lambda>eval_feature. ask_obj (Call ''getattr'' [Obj eval_feature, Str ''unique_id''])
              (\<lambda>uid. ask_int (Call ''int'' [Obj uid])
                (\<lambda>unique_id. ask_objs (Call ''iter'' [Obj outputs])
                  (\<lambda>outs.
                     bind (foreach outs
                             (\<lambda>out output.
                                ask_obj (Call ''__getitem__'' [Obj out, Num (int i)])
                                  (\<lambda>row. to_list row (\<lambda>l. Done (output @ [l]))))
                             [])
                       (\<lambda>output.
                          if length output \<ge> 5 then
                            ask_obj (Call ''SquadResult''
                                       [Num unique_id, Obj (output ! 0), Obj (output ! 2),
                                        Obj (output ! 1), Obj (output ! 3), Obj (output ! 4)])
                              (\<lambda>result. Done (all_results @ [result]))
                          else
                            unpack2 output
                              (\<lambda>start_logits end_logits.
                                 ask_obj (Call ''SquadResult''
                                            [Num unique_id, Obj start_logits, Obj end_logits])
                                   (\<lambda>result. Done (all_results @ [result]))))))))))"

definition eval_batch :: "args \<Rightarrow> 'obj \<Rightarrow> 'obj \<Rightarrow> 'obj \<Rightarrow> 'obj list \<Rightarrow> ('obj, 'obj list) prog" where
  "eval_batch a model features batch0 all_results =
     exec (Call ''eval'' [Obj model])
       (bind (to_device batch0)
          (\<lambda>batch.
             bind (eval_inputs a model batch)
               (\<lambda>(inputs, feature_indices).
                  ask_obj (Call ''__call__'' [Obj model, Dict inputs])
                    (\<lambda>outputs.
                       ask_objs (Call ''iter'' [Obj feature_indices])
                         (\<lambda>ixs. foreach (enumerate 0 ixs) (squad_result features outputs)
                                  all_results)))))"

text \<open>
  \<open>model.config.start_n_top if hasattr(model, "config") else
  model.module.config.start_n_top\<close>, and the same for \<open>end_n_top\<close>.
\<close>

definition config_value :: "'obj \<Rightarrow> string \<Rightarrow> ('obj \<Rightarrow> ('obj, 'a) prog) \<Rightarrow> ('obj, 'a) prog" where
  "config_value model name k =
     ask_bool (Call ''hasattr'' [Obj model, Str ''config''])
       (\<lambda>has_config.
          if has_config then
            ask_obj (Call ''getattr'' [Obj model, Str ''config''])
              (\<lambda>config. ask_obj (Call ''getattr'' [Obj config, Str name]) k)
          else
            ask_obj (Call ''getattr'' [Obj model, Str ''module''])
              (\<lambda>m. ask_obj (Call ''getattr'' [Obj m, Str ''config''])
                     (\<lambda>config. ask_obj (Call ''getattr'' [Obj config, Str name]) k)))"

text \<open>The call of the library's decoder (lines 389 to 433).\<close>

definition output_file :: "args \<Rightarrow> string \<Rightarrow> string \<Rightarrow> string" where
  "output_file a name prefix = path_join (output_dir a) (name @ prefix @ ''.json'')"

definition null_odds_file :: "args \<Rightarrow> string \<Rightarrow> 'obj arg" where
  "null_odds_file a prefix =
     (if version_2_with_negative a then Str (output_file a ''null_odds_'' prefix) else NoneArg)"

definition log_probs_call ::
  "args \<Rightarrow> 'obj \<Rightarrow> string \<Rightarrow> 'obj \<Rightarrow> 'obj \<Rightarrow> 'obj list \<Rightarrow> 'obj \<Rightarrow> 'obj \<Rightarrow> 'obj call" where
  "log_probs_call a tokenizer prefix examples features all_results start_n_top end_n_top =
     Call ''compute_predictions_log_probs''
       [Obj examples, Obj features, Objs all_results, Num (n_best_size a),
        Num (max_answer_length a), Str (output_file a ''predictions_'' prefix),
        Str (output_file a ''nbest_predictions_'' prefix), null_odds_file a prefix,
        Obj start_n_top, Obj end_n_top, Flag (version_2_with_negative a), Obj tokenizer,
        Flag (verbose_logging a)]"

definition logits_call ::
  "args \<Rightarrow> 'obj \<Rightarrow> string \<Rightarrow> 'obj \<Rightarrow> 'obj \<Rightarrow> 'obj list \<Rightarrow> 'obj call" where
  "logits_call a tokenizer prefix examples features all_results =
     Call ''compute_predictions_logits''
       [Obj examples, Obj features, Objs all_results, Num (n_best_size a),
        Num (max_answer_length a), Flag (do_lower_case a),
        Str (output_file a ''predictions_'' prefix),
        Str (output_file a ''nbest_predictions_'' prefix), null_odds_file a prefix,
        Flag (verbose_logging a), Flag (version_2_with_negative a),
        Parsed ''null_score_diff_threshold'', Obj tokenizer]"

definition compute_predictions ::
  "args \<Rightarrow> 'obj \<Rightarrow> 'obj \<Rightarrow> string \<Rightarrow> 'obj \<Rightarrow> 'obj \<Rightarrow> 'obj list \<Rightarrow> ('obj, 'obj) prog" where
  "compute_predictions a model tokenizer prefix examples features all_results =
     (if model_type a \<in> {''xlnet'', ''xlm''} then
        config_value model ''start_n_top''
          (\<lambda>start_n_top.
             config_value model ''end_n_top''
               (\<lambda>end_n_top.
                  ask_obj (log_probs_call a tokenizer prefix examples features all_results
                             start_n_top end_n_top) Done))
      else ask_obj (logits_call a tokenizer prefix examples features all_results) Done)"

text \<open>What \<open>evaluate\<close> does up to the decoding: the data, the model's outputs (lines 305 to 387).\<close>

definition collect_results ::
  "args \<Rightarrow> 'obj \<Rightarrow> 'obj \<Rightarrow> ('obj, 'obj \<times> 'obj \<times> 'obj \<times> 'obj list) prog" where
  "collect_results a model0 tokenizer =
     bind (load_and_cache_examples a tokenizer True True)
       (\<lambda>loaded. case loaded of
          Dataset d \<Rightarrow> Fail TypeError
        | DatasetExamplesFeatures dataset examples features \<Rightarrow>
            ask_bool (Call ''os.path.exists'' [Str (output_dir a)])
              (\<lambda>output_dir_exists.
                 bind (if \<not> output_dir_exists \<and> local_rank a \<in> {- 1, 0}
                       then exec (Call ''os.makedirs'' [Str (output_dir a)]) (Done ())
                       else Done ())
                   (\<lambda>u. ask_obj (Call ''SequentialSampler'' [Obj dataset])
                     (\<lambda>eval_sampler.
                        ask_obj (Call ''DataLoader''
                                   [Obj dataset, Obj eval_sampler,
                                    Num (per_gpu_eval_batch_size a * max 1 (n_gpu a))])
                          (\<lambda>eval_dataloader.
                             bind (if n_gpu a > 1 then
                                     ask_bool (Call ''isinstance''
                                                 [Obj model0, Str ''torch.nn.DataParallel''])
                                       (\<lambda>wrapped.
                                          if \<not> wrapped
                                          then ask_obj (Call ''torch.nn.DataParallel''
                                                          [Obj model0]) Done
                                          else Done model0)
                                   else Done model0)
                               (\<lambda>model.
                                  ask_int (Call ''len'' [Obj dataset])
                                    (\<lambda>n. ask_objs (Call ''iter'' [Obj eval_dataloader])
                                      (\<lambda>batches.
                                         bind (foreach batches (eval_batch a model features) [])
                                           (\<lambda>all_results.
                                              ask_int (Call ''len'' [Obj dataset])
                                                (\<lambda>n'. if n' = 0 then Fail ZeroDivisionError
                                                       else Done (model, examples, features,
                                                                  all_results)))))))))))"

definition evaluate :: "args \<Rightarrow> 'obj \<Rightarrow> 'obj \<Rightarrow> string \<Rightarrow> ('obj, 'obj) prog" where
  "evaluate a model0 tokenizer prefix =
     bind (collect_results a model0 tokenizer)
       (\<lambda>(model, examples, features, all_results).
          bind (compute_predictions a model tokenizer prefix examples features all_results)
            (\<lambda>predictions.
               ask_obj (Call ''squad_evaluate'' [Obj examples, Obj predictions]) Done))"

text \<open>
  The part of a transcript made of attribute lookups, and the name of the library's decoder
  for the model type.
\<close>

definition call_name :: "'obj call \<Rightarrow> string" where
  "call_name c = (case c of Call name xs \<Rightarrow> name)"

definition lookups :: "('obj call \<times> 'obj answer) list \<Rightarrow> bool" where
  "lookups t = list_all (\<lambda>ca. call_name (fst ca) \<in> {''hasattr'', ''getattr''}) t"

definition decoder_name :: "args \<Rightarrow> string" where
  "decoder_name a =
     (if model_type a \<in> {''xlnet'', ''xlm''} then ''compute_predictions_log_probs''
      else ''compute_predictions_logits'')"

subsection \<open>A sample environment\<close>

text \<open>
  Arguments of a small run, and an environment that answers every call: the cache and
  the directories exist, the data loader has one batch of four tensors with one feature,
  the model gives two outputs.
\<close>

definition demo_args :: args where
  "demo_args =
     \<lparr> doc_stride = 128, max_seq_length = 384, max_query_length = 64, output_dir = ''out'',
       do_train = True, do_eval = True, overwrite_output_dir = False, server_ip = [],
       server_port = [], local_rank = - 1, no_cuda = True, fp16 = False,
       model_type = ''bert'', model_name_or_path = ''bert-base-uncased'', config_name = [],
       tokenizer_name = [], cache_dir = [], uncertainty_model = False,
       eval_all_checkpoints = False, data_dir = None, train_file = Some ''train.json'',
       predict_file = Some ''dev.json'', overwrite_cache = False,
       version_2_with_negative = False, threads = 1, per_gpu_train_batch_size = 8,
       per_gpu_eval_batch_size = 8, n_gpu = 0, max_steps = - 1, num_train_epochs = 1,
       gradient_accumulation_steps = 1, logging_steps = 500, save_steps = 2,
       evaluate_during_training = False, n_best_size = 20, max_answer_length = 30,
       do_lower_case = True, verbose_logging = False, lang_id = 0 \<rparr>"

definition demo_items :: "nat \<Rightarrow> nat list" where
  "demo_items x =
     (if x = 10 then [20]
      else if x = 20 then [21, 22, 23, 24]
      else if x = 24 then [30]
      else if x = 40 then [41, 42]
      else [])"

definition demo_answers :: "nat call \<Rightarrow> nat answer" where
  "demo_answers c =
     (case c of Call name xs \<Rightarrow>
        if name = ''os.path.exists'' then BoolVal True
        else if name = ''hasattr'' then BoolVal True
        else if name = ''len'' then IntVal 1
        else if name = ''item'' then IntVal 0
        else if name = ''int'' then IntVal 1000
        else if name = ''iter'' then
          (case xs of [Obj x] \<Rightarrow> ObjsVal (demo_items x) | _ \<Rightarrow> Raised TypeError)
        else if name = ''to'' then
          (case xs of Obj x # ys \<Rightarrow> ObjVal x | _ \<Rightarrow> Raised TypeError)
        else if name = ''DataLoader'' then ObjVal 10
        else if name = ''__call__'' then ObjVal 40
        else if name = ''squad_evaluate'' then ObjVal 7
        else ObjVal 0)"

subsection \<open>Splitting a stripped line\<close>

lemma split_scan_nonempty:
  "cur \<noteq> [] \<or> (\<exists>c \<in> set cs. \<not> isspace c) \<Longrightarrow> split_scan cur cs \<noteq> []"
  by (induction cs arbitrary: cur) auto

lemma rstrip_last_nonspace: "rstrip s \<noteq> [] \<Longrightarrow> \<not> isspace (last (rstrip s))"
proof -
  assume ne: "rstrip s \<noteq> []"
  then have d: "dropWhile isspace (rev s) \<noteq> []"
    by (simp add: rstrip_def)
  have "last (rstrip s) = hd (dropWhile isspace (rev s))"
    using d by (simp add: rstrip_def last_rev)
  then show ?thesis
    using d hd_dropWhile by metis
qed

lemma fields_nonempty: "\<not> blank line0 \<Longrightarrow> line_fields line0 \<noteq> []"
proof -
  assume nb: "\<not> blank line0"
  then have ne: "rstrip line0 \<noteq> []"
    by (simp add: blank_def)
  then have "last (rstrip line0) \<in> set (rstrip line0)"
    by simp
  with rstrip_last_nonspace [OF ne] have "\<exists>c \<in> set (rstrip line0). \<not> isspace c"
    by blast
  then show ?thesis
    unfolding line_fields_def split_def by (intro split_scan_nonempty) simp
qed

subsection \<open>The loop body, case by case\<close>

lemma body_cases:
  "body tokenize max_len line0 s =
     (if blank line0 then Inr (s\<lparr>stdout := stdout s @ [[]], subword_len_counter := 0\<rparr>)
      else if tokenize (token_of line0) = [] then Inr s
      else if subword_len_counter s + int (length (tokenize (token_of line0))) > max_len then
        Inr (s\<lparr>stdout := stdout s @ [[], print2 (token_of line0) (label_of line0)],
               subword_len_counter := 0\<rparr>)
      else
        Inr (s\<lparr>subword_len_counter :=
                  subword_len_counter s + int (length (tokenize (token_of line0))),
               stdout := stdout s @ [print2 (token_of line0) (label_of line0)]\<rparr>))"
proof (cases "blank line0")
  case True
  then show ?thesis by (simp add: body_def blank_def)
next
  case False
  then obtain t others where f: "split (rstrip line0) = t # others"
    using fields_nonempty [OF False] by (auto simp: line_fields_def neq_Nil_conv)
  from False have ne: "rstrip line0 \<noteq> []" by (simp add: blank_def)
  show ?thesis
    using False ne f
    by (simp add: body_def token_of_def label_of_def line_fields_def Let_def)
qed

lemma body_fold_step: "body tokenize max_len line0 s = Inr (fold_step tokenize max_len line0 s)"
  by (simp add: fold_step_def line_effect_def body_cases)

lemma main_loop_fold:
  "main_loop tokenize max_len lines s = Inr (fold (fold_step tokenize max_len) lines s)"
  by (induction lines arbitrary: s) (simp_all add: body_fold_step)

lemma counter_fold_step:
  "subword_len_counter (fold_step tokenize max_len line0 s) =
     (if blank line0 then 0
      else if tokenize (token_of line0) = [] then subword_len_counter s
      else if subword_len_counter s + int (length (tokenize (token_of line0))) > max_len then 0
      else subword_len_counter s + int (length (tokenize (token_of line0))))"
  by (simp add: fold_step_def line_effect_def body_cases)

lemma stdout_fold_step:
  "stdout (fold_step tokenize max_len line0 s) =
     stdout s @
     (if blank line0 then [[]]
      else if tokenize (token_of line0) = [] then []
      else if subword_len_counter s + int (length (tokenize (token_of line0))) > max_len
        then [[], print2 (token_of line0) (label_of line0)]
      else [print2 (token_of line0) (label_of line0)])"
  by (simp add: fold_step_def line_effect_def body_cases)

lemma fold_step_bounds:
  "0 \<le> max_len \<Longrightarrow> 0 \<le> subword_len_counter s \<and> subword_len_counter s \<le> max_len \<Longrightarrow>
   0 \<le> subword_len_counter (fold_step tokenize max_len line0 s) \<and>
   subword_len_counter (fold_step tokenize max_len line0 s) \<le> max_len"
  by (simp add: counter_fold_step)

lemma fold_bounds:
  "0 \<le> max_len \<Longrightarrow> 0 \<le> subword_len_counter s \<and> subword_len_counter s \<le> max_len \<Longrightarrow>
   0 \<le> subword_len_counter (fold (fold_step tokenize max_len) lines s) \<and>
   subword_len_counter (fold (fold_step tokenize max_len) lines s) \<le> max_len"
proof (induction lines arbitrary: s)
  case Nil
  then show ?case by simp
next
  case (Cons l ls)
  have "0 \<le> subword_len_counter (fold_step tokenize max_len l s) \<and>
        subword_len_counter (fold_step tokenize max_len l s) \<le> max_len"
    using Cons.prems by (rule fold_step_bounds)
  with Cons.IH [OF Cons.prems(1)] show ?case by simp
qed

lemma main_loop_snoc:
  "main_loop tokenize max_len (ls @ [l]) s =
     (case main_loop tokenize max_len ls s of
        Inl e \<Rightarrow> Inl e
      | Inr s' \<Rightarrow> body tokenize max_len l s')"
  by (induction ls arbitrary: s) (simp_all split: sum.splits)

lemma print2_nonempty: "print2 t l \<noteq> []"
  by (simp add: print2_def)

lemma printed_pairs_fold:
  "filter (\<lambda>l. l \<noteq> []) (stdout (fold (fold_step tokenize max_len) lines s)) =
     filter (\<lambda>l. l \<noteq> []) (stdout s) @
     map (\<lambda>line0. print2 (token_of line0) (label_of line0))
       (filter (\<lambda>line0. \<not> blank line0 \<and> tokenize (token_of line0) \<noteq> []) lines)"
proof (induction lines arbitrary: s)
  case Nil
  then show ?case by simp
next
  case (Cons l ls)
  show ?case
    by (simp add: Cons.IH stdout_fold_step print2_nonempty)
qed

lemma fold_step_dropped:
  assumes "\<not> blank line0" and "tokenize (token_of line0) = []"
  shows "fold_step tokenize max_len line0 s = s"
proof -
  have "body tokenize max_len line0 s = Inr s"
    using assms by (simp add: body_cases)
  then show ?thesis
    by (simp add: body_fold_step)
qed

lemma dropped_lines_fold:
  "fold (fold_step tokenize max_len)
     (filter (\<lambda>line0. blank line0 \<or> tokenize (token_of line0) \<noteq> []) lines) s =
   fold (fold_step tokenize max_len) lines s"
proof (induction lines arbitrary: s)
  case Nil
  then show ?case by simp
next
  case (Cons l ls)
  show ?case
  proof (cases "blank l \<or> tokenize (token_of l) \<noteq> []")
    case True
    then show ?thesis by (simp add: Cons.IH)
  next
    case False
    then have "fold_step tokenize max_len l s = s"
      by (simp add: fold_step_dropped)
    with False show ?thesis by (simp add: Cons.IH)
  qed
qed

subsection \<open>Properties of the preprocessor\<close>

text \<open>
  Claim C1. The preprocessor is a single left-to-right pass over the lines, a left fold
  from the initial state: what a line adds to the output and the counter after it are
  \<open>line_effect\<close> of that line and the counter before it, and nothing else is carried from
  one line to the next.
\<close>

theorem preprocess_left_fold:
  "preprocess tokenize max_len lines =
     Inr (fold (\<lambda>line0 s.
            case line_effect tokenize max_len (subword_len_counter s) line0 of
              (c', printed) \<Rightarrow> \<lparr>subword_len_counter = c', stdout = stdout s @ printed\<rparr>)
          lines init_state)"
proof -
  have "fold_step tokenize max_len =
        (\<lambda>line0 s. case line_effect tokenize max_len (subword_len_counter s) line0 of
              (c', printed) \<Rightarrow> \<lparr>subword_len_counter = c', stdout = stdout s @ printed\<rparr>)"
    by (intro ext) (simp add: fold_step_def)
  then show ?thesis
    by (simp add: preprocess_def main_loop_fold)
qed

text \<open>
  Claim C2, as amended. The non-empty lines of the output are exactly, in input order, the
  token (first field) and the label (last field) of every non-blank input line whose
  token the tokenizer splits into at least one subword. A non-blank line whose token has
  no subword is dropped without output and without effect: the run ends in the same state,
  with the same output, empty lines included, as the run on the input with these lines
  taken out. So the run on the one line \<open>\x96 O\<close> prints nothing.
\<close>

theorem printed_pairs_in_order:
  "\<exists>s. preprocess tokenize max_len lines = Inr s \<and>
       filter (\<lambda>l. l \<noteq> []) (stdout s) =
         map (\<lambda>line0. print2 (token_of line0) (label_of line0))
           (filter (\<lambda>line0. \<not> blank line0 \<and> tokenize (token_of line0) \<noteq> []) lines) \<and>
       preprocess tokenize max_len
         (filter (\<lambda>line0. blank line0 \<or> tokenize (token_of line0) \<noteq> []) lines) = Inr s"
  by (simp add: preprocess_def main_loop_fold printed_pairs_fold init_state_def
      dropped_lines_fold)

theorem filtered_line_not_printed:
  "\<not> blank [150, 32, 79] \<and>
   preprocess char_tokenize 10 [[150, 32, 79]] = Inr \<lparr>subword_len_counter = 0, stdout = []\<rparr> \<and>
   token_of [150, 32, 79] = [150] \<and> label_of [150, 32, 79] = [79]"
  by (simp add: preprocess_def init_state_def body_def blank_def rstrip_def split_def
      isspace_def char_tokenize_def print2_def token_of_def label_of_def line_fields_def)

text \<open>
  Claim C3. When \<open>max_len\<close> is not negative, the counter is between 0 and \<open>max_len\<close> after
  any prefix of the lines. One line sets it to 0 when the line is blank or triggers a split,
  leaves it when the token has no subword, and otherwise adds the token's subword count,
  which happens only when the sum does not exceed \<open>max_len\<close>.
\<close>

theorem counter_within_budget:
  assumes "0 \<le> max_len"
  shows "(\<exists>s. preprocess tokenize max_len (take n lines) = Inr s \<and>
              0 \<le> subword_len_counter s \<and> subword_len_counter s \<le> max_len) \<and>
         (\<exists>s'. body tokenize max_len line0 s0 = Inr s' \<and>
               subword_len_counter s' =
                 (if blank line0 then 0
                  else if tokenize (token_of line0) = [] then subword_len_counter s0
                  else if subword_len_counter s0 + int (length (tokenize (token_of line0))) > max_len
                    then 0
                  else subword_len_counter s0 + int (length (tokenize (token_of line0)))))"
proof
  have "0 \<le> subword_len_counter init_state \<and> subword_len_counter init_state \<le> max_len"
    using assms by (simp add: init_state_def)
  from fold_bounds [OF assms this]
  show "\<exists>s. preprocess tokenize max_len (take n lines) = Inr s \<and>
              0 \<le> subword_len_counter s \<and> subword_len_counter s \<le> max_len"
    by (simp add: preprocess_def main_loop_fold)
next
  show "\<exists>s'. body tokenize max_len line0 s0 = Inr s' \<and>
               subword_len_counter s' =
                 (if blank line0 then 0
                  else if tokenize (token_of line0) = [] then subword_len_counter s0
                  else if subword_len_counter s0 + int (length (tokenize (token_of line0))) > max_len
                    then 0
                  else subword_len_counter s0 + int (length (tokenize (token_of line0))))"
    by (simp add: body_fold_step counter_fold_step)
qed

theorem counter_within_budget_witness:
  "(0::int) \<le> 3 \<and>
   (\<exists>s. preprocess char_tokenize 3 (take 2 [str ''EU B'', str ''UK O'', str ''a O'']) = Inr s \<and>
        0 \<le> subword_len_counter s \<and> subword_len_counter s \<le> 3) \<and>
   (\<exists>s'. body char_tokenize 3 [] \<lparr>subword_len_counter = 2, stdout = []\<rparr> = Inr s' \<and>
         subword_len_counter s' = 0)"
  using counter_within_budget [of 3 char_tokenize 2 "[str ''EU B'', str ''UK O'', str ''a O'']"
      "[]" "\<lparr>subword_len_counter = 2, stdout = []\<rparr>"]
  by (simp add: blank_def rstrip_def)

text \<open>
  Claim C4. A line triggers a split when it is not blank and the counter plus its token's
  subword count exceeds \<open>max_len\<close>; the test comes after the filter of tokens without
  subwords, so the count is not 0 (which follows by itself when the counter is at most
  \<open>max_len\<close>). The body then prints an empty line and the token and label, and sets the
  counter to 0: the token's subwords are not counted in the example it opens.
\<close>

theorem split_resets_counter:
  assumes "\<not> blank line0"
    and "tokenize (token_of line0) \<noteq> [] \<or> subword_len_counter s \<le> max_len"
    and "subword_len_counter s + int (length (tokenize (token_of line0))) > max_len"
  shows "body tokenize max_len line0 s =
           Inr (s\<lparr>stdout := stdout s @ [[], print2 (token_of line0) (label_of line0)],
                  subword_len_counter := 0\<rparr>)"
proof -
  have "tokenize (token_of line0) \<noteq> []"
    using assms(2,3) by auto
  then show ?thesis
    using assms(1,3) by (simp add: body_cases)
qed

theorem split_resets_counter_witness:
  "\<not> blank (str ''rejects O'') \<and>
   body char_tokenize 8 (str ''rejects O'')
     \<lparr>subword_len_counter = 2, stdout = [str ''EU B-ORG'']\<rparr> =
   Inr \<lparr>subword_len_counter = 0, stdout = [str ''EU B-ORG'', [], str ''rejects O'']\<rparr>"
proof -
  have nb: "\<not> blank (str ''rejects O'')"
    by (simp add: blank_def rstrip_def str_def isspace_def)
  have tk: "token_of (str ''rejects O'') = str ''rejects''"
    by (simp add: token_of_def line_fields_def split_def rstrip_def str_def isspace_def)
  have lb: "label_of (str ''rejects O'') = str ''O''"
    by (simp add: label_of_def line_fields_def split_def rstrip_def str_def isspace_def)
  have ct: "char_tokenize (str ''rejects'') = str ''rejects''"
    by (simp add: char_tokenize_def str_def)
  have pr: "print2 (str ''rejects'') (str ''O'') = str ''rejects O''"
    by (simp add: print2_def str_def)
  have ln: "length (str ''rejects'') = 7"
    by (simp add: str_def)
  show ?thesis
    using nb split_resets_counter [of "str ''rejects O''" char_tokenize
        "\<lparr>subword_len_counter = 2, stdout = [str ''EU B-ORG'']\<rparr>" 8]
    by (simp add: tk lb ct pr ln)
qed

text \<open>
  Claim C5. The loop body uses the tokenizer only through the length of its output on the
  line's token: two tokenizers that agree on that length give the same result. The
  counter after the line is 0 (blank line or split) or the counter before plus that
  length.
\<close>

theorem subword_count_from_tokenizer:
  assumes "length (tokenize (token_of line0)) = length (tokenize' (token_of line0))"
  shows "body tokenize max_len line0 s = body tokenize' max_len line0 s \<and>
         (\<exists>s'. body tokenize max_len line0 s = Inr s' \<and>
            subword_len_counter s' =
              (if blank line0 \<or>
                  subword_len_counter s + int (length (tokenize (token_of line0))) > max_len \<and>
                  tokenize (token_of line0) \<noteq> []
               then 0
               else subword_len_counter s + int (length (tokenize (token_of line0)))))"
proof
  have "tokenize (token_of line0) = [] \<longleftrightarrow> tokenize' (token_of line0) = []"
    using assms by (metis length_0_conv)
  then show "body tokenize max_len line0 s = body tokenize' max_len line0 s"
    using assms by (simp add: body_cases)
next
  show "\<exists>s'. body tokenize max_len line0 s = Inr s' \<and>
            subword_len_counter s' =
              (if blank line0 \<or>
                  subword_len_counter s + int (length (tokenize (token_of line0))) > max_len \<and>
                  tokenize (token_of line0) \<noteq> []
               then 0
               else subword_len_counter s + int (length (tokenize (token_of line0))))"
    by (simp add: body_cases)
qed

theorem subword_count_from_tokenizer_witness:
  "length (char_tokenize (token_of (str ''EU B''))) =
     length ((map Suc \<circ> char_tokenize) (token_of (str ''EU B''))) \<and>
   body char_tokenize 3 (str ''EU B'') \<lparr>subword_len_counter = 1, stdout = []\<rparr> =
     body (map Suc \<circ> char_tokenize) 3 (str ''EU B'') \<lparr>subword_len_counter = 1, stdout = []\<rparr> \<and>
   body char_tokenize 3 (str ''EU B'') \<lparr>subword_len_counter = 1, stdout = []\<rparr> =
     Inr \<lparr>subword_len_counter = 3, stdout = [str ''EU B'']\<rparr>"
proof -
  have tk: "token_of (str ''EU B'') = str ''EU''"
    by (simp add: token_of_def line_fields_def split_def rstrip_def str_def isspace_def)
  have "body char_tokenize 3 (str ''EU B'') \<lparr>subword_len_counter = 1, stdout = []\<rparr> =
     Inr \<lparr>subword_len_counter = 3, stdout = [str ''EU B'']\<rparr>"
    by (simp add: body_def split_def rstrip_def str_def isspace_def char_tokenize_def print2_def)
  then show ?thesis
    using subword_count_from_tokenizer [of char_tokenize "str ''EU B''" "map Suc \<circ> char_tokenize"
        3 "\<lparr>subword_len_counter = 1, stdout = []\<rparr>"]
    by simp
qed

text \<open>
  Claim C10. On every finite list of lines the loop returns a final state, without an
  error, and it applies the body to each line once, in order: the state after the first
  \<open>i + 1\<close> lines is the body on line \<open>i\<close> from the state after the first \<open>i\<close>
  lines.
\<close>

theorem preprocess_terminates:
  assumes "i < length lines"
  shows "(\<exists>s'. main_loop tokenize max_len lines s = Inr s') \<and>
         (\<exists>si. main_loop tokenize max_len (take i lines) s = Inr si \<and>
               main_loop tokenize max_len (take (Suc i) lines) s =
                 body tokenize max_len (lines ! i) si)"
proof
  show "\<exists>s'. main_loop tokenize max_len lines s = Inr s'"
    by (simp add: main_loop_fold)
next
  have "take (Suc i) lines = take i lines @ [lines ! i]"
    using assms by (simp add: take_Suc_conv_app_nth)
  then show "\<exists>si. main_loop tokenize max_len (take i lines) s = Inr si \<and>
               main_loop tokenize max_len (take (Suc i) lines) s =
                 body tokenize max_len (lines ! i) si"
    by (simp add: main_loop_snoc) (simp add: main_loop_fold)
qed

theorem preprocess_terminates_witness:
  "(1::nat) < length [str ''EU B'', str ''UK O''] \<and>
   main_loop char_tokenize 3 [str ''EU B'', str ''UK O''] init_state =
     Inr \<lparr>subword_len_counter = 0, stdout = [str ''EU B'', [], str ''UK O'']\<rparr> \<and>
   main_loop char_tokenize 3 (take 1 [str ''EU B'', str ''UK O'']) init_state =
     Inr \<lparr>subword_len_counter = 2, stdout = [str ''EU B'']\<rparr> \<and>
   main_loop char_tokenize 3 (take (Suc 1) [str ''EU B'', str ''UK O'']) init_state =
     body char_tokenize 3 ([str ''EU B'', str ''UK O''] ! 1)
       \<lparr>subword_len_counter = 2, stdout = [str ''EU B'']\<rparr>"
proof -
  have b1: "body char_tokenize 3 (str ''EU B'') init_state =
      Inr \<lparr>subword_len_counter = 2, stdout = [str ''EU B'']\<rparr>"
    by (simp add: body_def split_def rstrip_def str_def isspace_def char_tokenize_def
        print2_def init_state_def)
  have b2: "body char_tokenize 3 (str ''UK O'') \<lparr>subword_len_counter = 2, stdout = [str ''EU B'']\<rparr> =
      Inr \<lparr>subword_len_counter = 0, stdout = [str ''EU B'', [], str ''UK O'']\<rparr>"
    by (simp add: body_def split_def rstrip_def str_def isspace_def char_tokenize_def print2_def)
  show ?thesis
    using preprocess_terminates [of 1 "[str ''EU B'', str ''UK O'']" char_tokenize 3 init_state]
    by (simp add: b1 b2)
qed

subsection \<open>Runs of composed programs\<close>

lemma run_bind:
  "run env (bind m f) e =
     (case run env m e of
        (t, Returned v, e') \<Rightarrow> (case run env (f v) e' of (t', rest) \<Rightarrow> (t @ t', rest))
      | (t, Raising x, e') \<Rightarrow> (t, Raising x, e')
      | (t, Waiting, e') \<Rightarrow> (t, Waiting, e'))"
proof (induction m arbitrary: e)
  case (Done v)
  then show ?case by (simp split: prod.splits)
next
  case (Fail x)
  then show ?case by simp
next
  case (Do c k)
  show ?case
  proof (cases "env e c")
    case None
    then show ?thesis by simp
  next
    case (Some p)
    obtain r e1 where p: "p = (r, e1)" by (cases p)
    have "k r \<in> range k" by simp
    from Do.IH [OF this, of e1] Some p show ?thesis
      by (simp split: prod.splits outcome.splits)
  qed
qed

lemma run_bind_Returned:
  assumes "run env (bind m f) e = (t, Returned r, e')"
  obtains t1 v e1 t2 where "run env m e = (t1, Returned v, e1)"
    and "run env (f v) e1 = (t2, Returned r, e')" and "t = t1 @ t2"
  using assms unfolding run_bind
  by (auto split: prod.splits outcome.splits)

lemma run_ask_Returned:
  assumes "run env (ask c k) e = (t, Returned r, e')"
  obtains a e1 t' where "env e c = Some (a, e1)" and "t = (c, a) # t'"
    and "run env (k a) e1 = (t', Returned r, e')" and "\<not> is_Raised a"
  using assms unfolding ask_def
  by (auto split: option.splits prod.splits if_splits)

lemma run_exec_Returned:
  assumes "run env (exec c p) e = (t, Returned r, e')"
  obtains a e1 t' where "env e c = Some (a, e1)" and "t = (c, a) # t'"
    and "run env p e1 = (t', Returned r, e')" and "\<not> is_Raised a"
  using assms unfolding exec_def
  by (auto split: option.splits prod.splits if_splits)

lemma run_ask_obj_Returned:
  assumes "run env (ask_obj c k) e = (t, Returned r, e')"
  obtains x e1 t' where "env e c = Some (ObjVal x, e1)" and "t = (c, ObjVal x) # t'"
    and "run env (k x) e1 = (t', Returned r, e')"
  using assms unfolding ask_obj_def
  by (auto split: option.splits prod.splits answer.splits)

lemma run_ask_bool_Returned:
  assumes "run env (ask_bool c k) e = (t, Returned r, e')"
  obtains b e1 t' where "env e c = Some (BoolVal b, e1)" and "t = (c, BoolVal b) # t'"
    and "run env (k b) e1 = (t', Returned r, e')"
  using assms unfolding ask_bool_def
  by (auto split: option.splits prod.splits answer.splits)

lemma config_value_Returned:
  assumes "run env (config_value model name k) e = (t, Returned r, e')"
  obtains pre v e1 t' where "t = pre @ t'" and "lookups pre"
    and "run env (k v) e1 = (t', Returned r, e')"
proof -
  from assms obtain b ea ta where
    t: "t = (Call ''hasattr'' [Obj model, Str ''config''], BoolVal b) # ta"
    and r: "run env
              (if b then
                 ask_obj (Call ''getattr'' [Obj model, Str ''config''])
                   (\<lambda>config. ask_obj (Call ''getattr'' [Obj config, Str name]) k)
               else
                 ask_obj (Call ''getattr'' [Obj model, Str ''module''])
                   (\<lambda>m. ask_obj (Call ''getattr'' [Obj m, Str ''config''])
                          (\<lambda>config. ask_obj (Call ''getattr'' [Obj config, Str name]) k)))
              ea = (ta, Returned r, e')"
    unfolding config_value_def by (elim run_ask_bool_Returned) simp
  show ?thesis
  proof (cases b)
    case True
    with r obtain config tb v ec tc where
      "ta = (Call ''getattr'' [Obj model, Str ''config''], ObjVal config) # tb"
      "tb = (Call ''getattr'' [Obj config, Str name], ObjVal v) # tc"
      "run env (k v) ec = (tc, Returned r, e')"
      by (auto elim!: run_ask_obj_Returned)
    with t have "t = [(Call ''hasattr'' [Obj model, Str ''config''], BoolVal b),
                      (Call ''getattr'' [Obj model, Str ''config''], ObjVal config),
                      (Call ''getattr'' [Obj config, Str name], ObjVal v)] @ tc"
      and "lookups [(Call ''hasattr'' [Obj model, Str ''config''], BoolVal b),
                      (Call ''getattr'' [Obj model, Str ''config''], ObjVal config),
                      (Call ''getattr'' [Obj config, Str name], ObjVal v)]"
      by (simp_all add: lookups_def call_name_def)
    from this \<open>run env (k v) ec = (tc, Returned r, e')\<close> show ?thesis
      by (rule that)
  next
    case False
    with r obtain m config tb v ec tc td where
      "ta = (Call ''getattr'' [Obj model, Str ''module''], ObjVal m) # tb"
      "tb = (Call ''getattr'' [Obj m, Str ''config''], ObjVal config) # tc"
      "tc = (Call ''getattr'' [Obj config, Str name], ObjVal v) # td"
      "run env (k v) ec = (td, Returned r, e')"
      by (auto elim!: run_ask_obj_Returned)
    with t have "t = [(Call ''hasattr'' [Obj model, Str ''config''], BoolVal b),
                      (Call ''getattr'' [Obj model, Str ''module''], ObjVal m),
                      (Call ''getattr'' [Obj m, Str ''config''], ObjVal config),
                      (Call ''getattr'' [Obj config, Str name], ObjVal v)] @ td"
      and "lookups [(Call ''hasattr'' [Obj model, Str ''config''], BoolVal b),
                      (Call ''getattr'' [Obj model, Str ''module''], ObjVal m),
                      (Call ''getattr'' [Obj m, Str ''config''], ObjVal config),
                      (Call ''getattr'' [Obj config, Str name], ObjVal v)]"
      by (simp_all add: lookups_def call_name_def)
    from this \<open>run env (k v) ec = (td, Returned r, e')\<close> show ?thesis
      by (rule that)
  qed
qed

lemma lookups_append: "lookups (xs @ ys) \<longleftrightarrow> lookups xs \<and> lookups ys"
  by (simp add: lookups_def)

lemma compute_predictions_Returned:
  assumes "run env (compute_predictions a model tokenizer prefix examples features all_results) e =
             (t, Returned p, e')"
  shows "\<exists>pre rest. lookups pre \<and>
           t = pre @ [(Call (decoder_name a)
                         (Obj examples # Obj features # Objs all_results # rest), ObjVal p)]"
proof (cases "model_type a \<in> {''xlnet'', ''xlm''}")
  case True
  with assms have "run env
      (config_value model ''start_n_top''
          (\<lambda>start_n_top.
             config_value model ''end_n_top''
               (\<lambda>end_n_top.
                  ask_obj (log_probs_call a tokenizer prefix examples features all_results
                             start_n_top end_n_top) Done))) e = (t, Returned p, e')"
    by (simp add: compute_predictions_def)
  then obtain pre1 s e1 t1 where 1: "t = pre1 @ t1" "lookups pre1"
    and "run env (config_value model ''end_n_top''
               (\<lambda>end_n_top.
                  ask_obj (log_probs_call a tokenizer prefix examples features all_results
                             s end_n_top) Done)) e1 = (t1, Returned p, e')"
    by (rule config_value_Returned)
  then obtain pre2 n e2 t2 where 2: "t1 = pre2 @ t2" "lookups pre2"
    and "run env (ask_obj (log_probs_call a tokenizer prefix examples features all_results
                             s n) Done) e2 = (t2, Returned p, e')"
    by (elim config_value_Returned)
  then have "t2 = [(log_probs_call a tokenizer prefix examples features all_results s n, ObjVal p)]"
    by (auto elim!: run_ask_obj_Returned)
  with 1 2 True show ?thesis
    by (simp add: log_probs_call_def decoder_name_def)
      (metis append.assoc lookups_append)
next
  case False
  with assms have "run env (ask_obj (logits_call a tokenizer prefix examples features all_results)
      Done) e = (t, Returned p, e')"
    by (simp add: compute_predictions_def)
  then have "t = [] @ [(logits_call a tokenizer prefix examples features all_results, ObjVal p)]"
    by (auto elim!: run_ask_obj_Returned)
  moreover have "lookups []"
    by (simp add: lookups_def)
  ultimately show ?thesis
    using False unfolding logits_call_def decoder_name_def by (simp only: if_False) blast
qed

subsection \<open>What \<open>evaluate\<close> returns\<close>

text \<open>
  Claim C7. When \<open>evaluate\<close> returns a value, the last two calls of the run are the
  library's decoder and \<open>squad_evaluate\<close>. The decoder is
  \<open>compute_predictions_log_probs\<close> when the model type is \<open>xlnet\<close> or \<open>xlm\<close> and
  \<open>compute_predictions_logits\<close> otherwise; it is called on the examples and features that
  \<open>load_and_cache_examples\<close> gave and on the results collected from the model, and what
  it answers is the predictions. \<open>squad_evaluate\<close> is called on these examples and
  predictions, and what it answers is the value returned. Between the collection of the
  results and the decoder there are only attribute lookups; nothing of the driver's own
  changes the predictions.
\<close>

theorem evaluate_returns_library_scores:
  assumes "run env (evaluate a model0 tokenizer prefix) e = (t, Returned r, e')"
  shows "\<exists>t0 e0 model examples features all_results pre rest predictions.
     run env (collect_results a model0 tokenizer) e =
       (t0, Returned (model, examples, features, all_results), e0) \<and>
     lookups pre \<and>
     t = t0 @ pre @
         [(Call (decoder_name a) (Obj examples # Obj features # Objs all_results # rest),
           ObjVal predictions),
          (Call ''squad_evaluate'' [Obj examples, Obj predictions], ObjVal r)]"
proof -
  from assms obtain t0 v e0 t1 where c: "run env (collect_results a model0 tokenizer) e =
      (t0, Returned v, e0)"
    and rest: "run env
      ((\<lambda>(model, examples, features, all_results).
          bind (compute_predictions a model tokenizer prefix examples features all_results)
            (\<lambda>predictions.
               ask_obj (Call ''squad_evaluate'' [Obj examples, Obj predictions]) Done)) v) e0 =
      (t1, Returned r, e')"
    and t: "t = t0 @ t1"
    unfolding evaluate_def by (rule run_bind_Returned)
  obtain model examples features all_results where v: "v = (model, examples, features, all_results)"
    by (cases v)
  from rest v obtain t2 predictions e2 t3 where
    p: "run env (compute_predictions a model tokenizer prefix examples features all_results) e0 =
          (t2, Returned predictions, e2)"
    and s: "run env (ask_obj (Call ''squad_evaluate'' [Obj examples, Obj predictions]) Done) e2 =
          (t3, Returned r, e')"
    and t1: "t1 = t2 @ t3"
    by (auto elim!: run_bind_Returned)
  from s have t3: "t3 = [(Call ''squad_evaluate'' [Obj examples, Obj predictions], ObjVal r)]"
    by (auto elim!: run_ask_obj_Returned)
  from compute_predictions_Returned [OF p] obtain pre rest where
    "lookups pre" and "t2 = pre @ [(Call (decoder_name a)
                         (Obj examples # Obj features # Objs all_results # rest), ObjVal predictions)]"
    by blast
  with c v t t1 t3 show ?thesis
    by auto
qed

subsection \<open>Runs in the sample environment\<close>

lemmas prog_defs = ask_def exec_def ask_bool_def ask_int_def ask_obj_def ask_objs_def ask_strs_def
  index_def unpack2_def answering_def

lemmas eval_defs = evaluate_def collect_results_def load_and_cache_examples_def load_or_create_def
  cached_features_file_def compute_predictions_def logits_call_def eval_batch_def eval_inputs_def
  squad_result_def to_device_def to_list_def output_file_def null_odds_file_def path_join_def barrier_def
  str_int_def


lemma demo_returns:
  "snd (run (answering demo_answers) (evaluate demo_args 1 2 []) ()) = (Returned 7, ())"
  by (simp add: eval_defs prog_defs demo_args_def demo_answers_def demo_items_def enumerate_eq_zip)

theorem evaluate_returns_library_scores_witness:
  "\<exists>t t0 e0 model examples features all_results pre rest predictions.
     run (answering demo_answers) (evaluate demo_args 1 2 []) () = (t, Returned 7, ()) \<and>
     run (answering demo_answers) (collect_results demo_args 1 2) () =
       (t0, Returned (model, examples, features, all_results), e0) \<and>
     lookups pre \<and>
     t = t0 @ pre @
         [(Call (decoder_name demo_args) (Obj examples # Obj features # Objs all_results # rest),
           ObjVal predictions),
          (Call ''squad_evaluate'' [Obj examples, Obj predictions], ObjVal 7)]"
proof -
  obtain t where r: "run (answering demo_answers) (evaluate demo_args 1 2 []) () = (t, Returned 7, ())"
    using demo_returns by (cases "run (answering demo_answers) (evaluate demo_args 1 2 []) ()") simp
  from evaluate_returns_library_scores [OF r] r show ?thesis
    by blast
qed

end
